theory Spec2Isabelle
  imports Main "HOL-Library.Word" "HOL-Library.Option_ord"
begin

section \<open>Backoff executor: \<open>retryWithBackoff\<close> (src/utils/helpers.js)\<close>

text \<open>
  The operation \<open>fn\<close> is a zero-argument effectful call. Its outcomes are given by the
  environment: \<open>fn i\<close> is what the invocation made in loop iteration \<open>i\<close> (counted
  from 0) produces, \<open>Inl e\<close> for a thrown error and \<open>Inr v\<close> for a returned value.
  The observable effects of the loop are written to a trace, in order.
  \<open>lastError\<close> starts out undefined (\<open>None\<close>).
\<close>

datatype effect = Invoke nat | Sleep int

function retry_loop ::
  "(nat \<Rightarrow> 'e + 'a) \<Rightarrow> int \<Rightarrow> int \<Rightarrow> nat \<Rightarrow> 'e option \<Rightarrow> effect list
     \<Rightarrow> ('e option + 'a) \<times> effect list" where
  "retry_loop fn maxRetries baseDelay i lastError tr =
     (if int i < maxRetries then
        (case fn i of
           Inr v \<Rightarrow> (Inr v, tr @ [Invoke i])
         | Inl e \<Rightarrow>
             (if int i < maxRetries - 1
              then retry_loop fn maxRetries baseDelay (Suc i) (Some e)
                     (tr @ [Invoke i, Sleep (baseDelay * 2 ^ i)])
              else retry_loop fn maxRetries baseDelay (Suc i) (Some e) (tr @ [Invoke i])))
      else (Inl lastError, tr))"
  by pat_completeness auto
termination
  by (relation "measure (\<lambda>(fn, maxRetries, baseDelay, i, lastError, tr). nat (maxRetries - int i))")
    auto

definition retryWithBackoff ::
  "(nat \<Rightarrow> 'e + 'a) \<Rightarrow> int \<Rightarrow> int \<Rightarrow> ('e option + 'a) \<times> effect list" where
  "retryWithBackoff fn maxRetries baseDelay = retry_loop fn maxRetries baseDelay 0 None []"

text \<open>The trace of \<open>k\<close> failed attempts \<open>i, i + 1, ...\<close>, each followed by its wait.\<close>

definition failed_rounds :: "int \<Rightarrow> nat \<Rightarrow> nat \<Rightarrow> effect list" where
  "failed_rounds baseDelay i k =
     concat (map (\<lambda>j. [Invoke j, Sleep (baseDelay * 2 ^ j)]) [i..<k])"


section \<open>Tag formatting: \<open>validateAndFormatTags\<close> (src/services/youtubeService.js)\<close>









section \<open>Errors and strings\<close>

text \<open>
  A thrown JavaScript error: its \<open>message\<close> and, when it is a number, its \<open>code\<close>
  (\<open>new Error(msg)\<close> has none). Messages are byte strings; \<open>js_includes\<close> is
  \<open>String.prototype.includes\<close>.
\<close>

datatype js_error = Error (code: "int option") (message: string)

fun js_includes :: "'a list \<Rightarrow> 'a list \<Rightarrow> bool" where
  "js_includes [] needle = (needle = [])"
| "js_includes (c # cs) needle = (take (length needle) (c # cs) = needle \<or> js_includes cs needle)"


section \<open>Data model (src/models/User.js, the upload log model)\<close>

record token_bundle =
  access_token :: "string option"
  refresh_token :: "string option"
  scope :: "string option"
  token_type :: "string option"
  expiry_date :: "int option"

record user =
  uid :: nat
  email :: string
  channelTitle :: string
  tokens :: "token_bundle option"
  isActive :: bool
  lastUploadDate :: "int option"
  totalUploads :: int
  failedUploads :: int
  lastTokenRefresh :: int

datatype log_status = Pending | Downloading | Uploading | Success | Failed

record upload_log =
  userId :: nat
  videoId :: string
  videoTitle :: string
  videoFilename :: string
  status :: log_status
  youtubeVideoId :: "string option"
  errorMessage :: "string option"
  uploadedAt :: "int option"
  duration :: "int option"

record video =
  vid :: string
  title :: string
  filename :: string
  downloadUrl :: string

record success_entry =
  s_userEmail :: string
  s_videoTitle :: string
  s_videoUrl :: string
  s_duration :: string

record failure_entry =
  f_userEmail :: string
  f_videoTitle :: string
  f_error :: string

record results =
  successful :: "success_entry list"
  failed :: "failure_entry list"
  totalUsers :: nat
  noVideos :: bool
  dbError :: bool

text \<open>
  The calls made to the email service (each delivers through \<open>retryWithBackoff\<close> and
  swallows a delivery failure, so none of them throws), and the other external calls.
\<close>

datatype notice =
    UploadReport results
  | ReAuthenticationRequired string string
  | ErrorNotification string string string

datatype call =
    GetNextVideo
  | DownloadVideo string
  | InsertVideo
  | RefreshAccessToken "string option"
  | UserSave nat
  | LogSave
  | MarkAsDownloaded string
  | CleanupFile string

record world =
  users :: "user list"
  logs :: "upload_log list"
  outbox :: "notice list"
  calls :: "call list"

definition called :: "call \<Rightarrow> world \<Rightarrow> world" where
  "called c w = w\<lparr>calls := calls w @ [c]\<rparr>"

text \<open>
  A loaded account document: its current in-memory fields and the fields as last loaded
  or saved. \<open>save()\<close> writes the modified paths only, so a save of a document leaves the
  stored values of the fields it did not change as they are.
\<close>

record account_doc =
  doc :: user
  saved :: user

definition load :: "user \<Rightarrow> account_doc" where
  "load u = \<lparr>doc = u, saved = u\<rparr>"

definition merge_user :: "user \<Rightarrow> user \<Rightarrow> user \<Rightarrow> user" where
  "merge_user base cur stored =
     stored\<lparr>
       email := if email cur \<noteq> email base then email cur else email stored,
       channelTitle := if channelTitle cur \<noteq> channelTitle base then channelTitle cur
                       else channelTitle stored,
       tokens := if tokens cur \<noteq> tokens base then tokens cur else tokens stored,
       isActive := if isActive cur \<noteq> isActive base then isActive cur else isActive stored,
       lastUploadDate := if lastUploadDate cur \<noteq> lastUploadDate base then lastUploadDate cur
                         else lastUploadDate stored,
       totalUploads := if totalUploads cur \<noteq> totalUploads base then totalUploads cur
                       else totalUploads stored,
       failedUploads := if failedUploads cur \<noteq> failedUploads base then failedUploads cur
                        else failedUploads stored,
       lastTokenRefresh := if lastTokenRefresh cur \<noteq> lastTokenRefresh base
                           then lastTokenRefresh cur else lastTokenRefresh stored\<rparr>"

text \<open>\<open>user.save()\<close>; \<open>outcome\<close> is the error the database answers with, if any.\<close>

definition save_user ::
  "js_error option \<Rightarrow> account_doc \<Rightarrow> world \<Rightarrow> (js_error + account_doc) \<times> world" where
  "save_user outcome d w =
     (case outcome of
        Some e \<Rightarrow> (Inl e, called (UserSave (uid (doc d))) w)
      | None \<Rightarrow>
          (Inr (d\<lparr>saved := doc d\<rparr>),
           called (UserSave (uid (doc d)))
             (w\<lparr>users := map (\<lambda>u. if uid u = uid (doc d) then merge_user (saved d) (doc d) u else u)
                             (users w)\<rparr>)))"

definition findById :: "nat \<Rightarrow> world \<Rightarrow> user option" where
  "findById i w = find (\<lambda>u. uid u = i) (users w)"

text \<open>
  An upload log document: its fields and, once it has been stored, its place in the
  collection. The first successful \<open>save()\<close> inserts it, a later one updates it.
\<close>

record log_doc =
  entry :: upload_log
  slot :: "nat option"

definition save_log ::
  "js_error option \<Rightarrow> log_doc \<Rightarrow> world \<Rightarrow> (js_error + log_doc) \<times> world" where
  "save_log outcome l w =
     (case outcome of
        Some e \<Rightarrow> (Inl e, called LogSave w)
      | None \<Rightarrow>
          (case slot l of
             None \<Rightarrow> (Inr (l\<lparr>slot := Some (length (logs w))\<rparr>),
                       called LogSave (w\<lparr>logs := logs w @ [entry l]\<rparr>))
           | Some k \<Rightarrow> (Inr l, called LogSave (w\<lparr>logs := (logs w)[k := entry l]\<rparr>))))"


section \<open>Credential lifecycle: the token service (src/services/tokenService.js)\<close>

text \<open>
  What the environment answers during one use of the token service: the clock, the
  authorization service's answer to a refresh exchange (the new access token and expiry),
  and the database's answers to the lookups and saves.
\<close>

record token_env =
  now :: int
  exchange :: "js_error + (string option \<times> int option)"
  refreshedAt :: int
  tokenSave :: "js_error option"
  lookupError :: "js_error option"
  deactivateSave :: "js_error option"

definition fiveMinutes :: int where
  "fiveMinutes = 5 * 60 * 1000"

text \<open>\<open>!expiryDate || now >= (expiryDate - fiveMinutes)\<close>; \<open>!x\<close> holds of undefined and of 0.\<close>

definition expiring :: "int option \<Rightarrow> int \<Rightarrow> bool" where
  "expiring expiryDate t =
     (case expiryDate of
        None \<Rightarrow> True
      | Some x \<Rightarrow> x = 0 \<or> t \<ge> x - fiveMinutes)"

definition auth_expired :: js_error where
  "auth_expired =
     Error None ''User authentication token expired. Please re-authenticate by visiting /auth/login''"

definition refreshTokenIfNeeded ::
  "token_env \<Rightarrow> account_doc \<Rightarrow> world \<Rightarrow> (js_error + token_bundle) \<times> account_doc \<times> world" where
  "refreshTokenIfNeeded env d w =
     (case tokens (doc d) of
        None \<Rightarrow> (Inl auth_expired, d, w)
      | Some t \<Rightarrow>
          if expiring (expiry_date t) (now env) then
            (let w1 = called (RefreshAccessToken (refresh_token t)) w in
             case exchange env of
               Inl e \<Rightarrow> (Inl auth_expired, d, w1)
             | Inr (at, exp) \<Rightarrow>
                 (let t' = t\<lparr>access_token := at, expiry_date := exp\<rparr>;
                      d1 = d\<lparr>doc := (doc d)\<lparr>tokens := Some t', lastTokenRefresh := refreshedAt env\<rparr>\<rparr>
                  in case save_user (tokenSave env) d1 w1 of
                       (Inl e, w2) \<Rightarrow> (Inl auth_expired, d1, w2)
                     | (Inr d2, w2) \<Rightarrow> (Inr t', d2, w2)))
          else (Inr t, d, w))"

definition falsy :: "string option \<Rightarrow> bool" where
  "falsy x \<longleftrightarrow> x = None \<or> x = Some []"

definition no_bundle :: "user \<Rightarrow> bool" where
  "no_bundle u \<longleftrightarrow> (case tokens u of None \<Rightarrow> True | Some t \<Rightarrow> falsy (refresh_token t))"

definition tokens_not_found :: js_error where
  "tokens_not_found = Error None ''User tokens not found. User needs to re-authenticate.''"

definition getValidTokens ::
  "token_env \<Rightarrow> nat \<Rightarrow> world \<Rightarrow> (js_error + token_bundle) \<times> world" where
  "getValidTokens env usrId w =
     (case lookupError env of
        Some e \<Rightarrow> (Inl e, w)
      | None \<Rightarrow>
          (case findById usrId w of
             None \<Rightarrow> (Inl (Error None ''User not found''), w)
           | Some u \<Rightarrow>
               if no_bundle u then (Inl tokens_not_found, w)
               else
                 (case refreshTokenIfNeeded env (load u) w of
                    (Inr t, d, w1) \<Rightarrow> (Inr t, w1)
                  | (Inl e, d, w1) \<Rightarrow>
                      (case save_user (deactivateSave env) (d\<lparr>doc := (doc d)\<lparr>isActive := False\<rparr>\<rparr>) w1 of
                         (Inl e', w2) \<Rightarrow> (Inl e', w2)
                       | (Inr d', w2) \<Rightarrow> (Inl e, w2)))))"



section \<open>The video service (src/services/videoService.js)\<close>

text \<open>
  The answer of the main server to \<open>GET /api/videos/next\<close>: a response body
  (\<open>success\<close>, \<open>data\<close>), or a failed request with its HTTP status (if any), its
  error code (if any) and its message. A missing field of the descriptor is the empty
  string.
\<close>

datatype http_outcome =
    Response bool "video option"
  | HttpError "nat option" "string option" string

definition getNextVideo :: "http_outcome \<Rightarrow> js_error + video option" where
  "getNextVideo h =
     (case h of
        Response success None \<Rightarrow> Inr None
      | Response success (Some videoData) \<Rightarrow>
          if success then
            (if vid videoData = [] \<or> title videoData = [] \<or> filename videoData = [] \<or>
                downloadUrl videoData = []
             then Inl (Error None ''Invalid video data received from server'')
             else Inr (Some videoData))
          else Inr None
      | HttpError st c msg \<Rightarrow>
          if st = Some 404 then Inr None
          else if c = Some ''ECONNABORTED'' then Inl (Error None ''Main server connection timeout'')
          else Inl (Error None msg))"

text \<open>Decimal rendering of a number, as a template literal does.\<close>

function dec :: "nat \<Rightarrow> string" where
  "dec n = (if n < 10 then [char_of (48 + n)] else dec (n div 10) @ [char_of (48 + n mod 10)])"
  by pat_completeness auto
termination
  by (relation "measure id") auto

definition MAX_VIDEO_SIZE :: nat where
  "MAX_VIDEO_SIZE = 256 * 1024 * 1024 * 1024"

text \<open>
  The streaming part of \<open>downloadVideo\<close>: the promise and its four handlers. The events
  come from the environment: a chunk of the response, the writer's \<open>finish\<close> and
  \<open>error\<close>, the response stream's \<open>error\<close>, and the expiry of the 15 minute timer.
  The state holds the promise (pending, rejected or resolved with the file path),
  whether the file is on local storage, whether the writer is still open, whether the
  timer is armed, and the bytes received. A destroyed writer writes nothing more, a
  writer that has emitted \<open>error\<close> is destroyed, and \<open>fs.removeSync\<close> removes the
  file.
\<close>

datatype stream_event =
    Chunk nat
  | WriterFinish
  | WriterError js_error
  | StreamError js_error
  | TimerExpired

record download_state =
  promise :: "(js_error + string) option"
  artifact :: bool
  writerOpen :: bool
  timerArmed :: bool
  downloadedBytes :: nat

definition settle :: "js_error + string \<Rightarrow> download_state \<Rightarrow> download_state" where
  "settle r s = (if promise s = None then s\<lparr>promise := Some r\<rparr> else s)"

definition download_timeout :: js_error where
  "download_timeout = Error None ''Download timeout - took too long''"

fun handle :: "string \<Rightarrow> download_state \<Rightarrow> stream_event \<Rightarrow> download_state" where
  "handle filePath s (Chunk n) =
     s\<lparr>downloadedBytes := downloadedBytes s + n, artifact := artifact s \<or> writerOpen s\<rparr>"
| "handle filePath s WriterFinish =
     (settle (Inr filePath) s)\<lparr>timerArmed := False\<rparr>"
| "handle filePath s (WriterError e) =
     (settle (Inl e) (s\<lparr>artifact := False, writerOpen := False\<rparr>))\<lparr>timerArmed := False\<rparr>"
| "handle filePath s (StreamError e) =
     settle (Inl e) (s\<lparr>writerOpen := False, artifact := False\<rparr>)"
| "handle filePath s TimerExpired =
     (if timerArmed s
      then settle (Inl download_timeout) (s\<lparr>writerOpen := False, artifact := False, timerArmed := False\<rparr>)
      else s)"

definition streaming :: download_state where
  "streaming = \<lparr>promise = None, artifact = True, writerOpen = True, timerArmed = True,
                 downloadedBytes = 0\<rparr>"

text \<open>
  \<open>downloadVideo\<close>: the request either fails or answers with headers (the parsed
  \<open>content-length\<close>, if it is a number); then the stream's events follow. A failure
  before the stream is set up goes through the \<open>catch\<close>, which removes the file if it
  is there. The result is the promise (\<open>None\<close> while it is pending) and whether the file
  is on local storage.
\<close>

record download_env =
  request :: "js_error + nat option"
  events :: "stream_event list"

definition downloadVideo :: "download_env \<Rightarrow> string \<Rightarrow> (js_error + string) option \<times> bool" where
  "downloadVideo env filePath =
     (case request env of
        Inl e \<Rightarrow> (Some (Inl e), False)
      | Inr contentLength \<Rightarrow>
          (case contentLength of
             Some n \<Rightarrow>
               if n > MAX_VIDEO_SIZE
               then (Some (Inl (Error None (''Video file too large: '' @ dec n @ '' bytes (max: '' @
                                             dec MAX_VIDEO_SIZE @ '' bytes)''))), False)
               else (let s = foldl (handle filePath) streaming (events env)
                     in (promise s, artifact s))
           | None \<Rightarrow>
               (let s = foldl (handle filePath) streaming (events env)
                in (promise s, artifact s))))"

definition is_chunk :: "stream_event \<Rightarrow> bool" where
  "is_chunk e = (case e of Chunk n \<Rightarrow> True | _ \<Rightarrow> False)"


section \<open>File validation and duration formatting (src/utils/helpers.js)\<close>

definition validateVideoFile :: "bool \<Rightarrow> js_error + nat \<Rightarrow> js_error + unit" where
  "validateVideoFile fileThere stats =
     (if \<not> fileThere then Inl (Error None ''Video file does not exist'')
      else (case stats of
              Inl e \<Rightarrow> Inl e
            | Inr sz \<Rightarrow>
                if sz = 0 then Inl (Error None ''Video file is empty'')
                else if sz < 1024 then Inl (Error None ''Video file is too small'')
                else Inr ()))"

definition join_space :: "string list \<Rightarrow> string" where
  "join_space parts = concat (case parts of [] \<Rightarrow> [] | p # ps \<Rightarrow> p # map (\<lambda>q. '' '' @ q) ps)"

definition formatDuration :: "int \<Rightarrow> string" where
  "formatDuration seconds =
     (if seconds = 0 \<or> seconds < 0 then ''0s''
      else
        (let hours = seconds div 3600;
             minutes = (seconds mod 3600) div 60;
             secs = seconds mod 60;
             parts1 = (if hours > 0 then [dec (nat hours) @ ''h''] else []);
             parts2 = parts1 @ (if minutes > 0 then [dec (nat minutes) @ ''m''] else []);
             parts3 = parts2 @ (if secs > 0 \<or> parts2 = [] then [dec (nat secs) @ ''s''] else [])
         in join_space parts3))"


section \<open>The publish step: \<open>uploadVideo\<close> (src/services/youtubeService.js)\<close>

text \<open>
  What the environment answers during one \<open>uploadVideo\<close>: whether the file is there and
  its size, the rendering of the size in GB (a floating-point rendering, taken as
  given), the token service's environment, and the outcome of \<open>videos.insert\<close> raced
  against the one hour timer: an error or the identifier of the published video. The
  request's metadata (sanitized title and description, formatted tags, privacy status)
  only reaches the remote interface.
\<close>

record publish_env =
  uploadExists :: bool
  uploadStat :: "js_error + nat"
  fileSizeGB :: string
  tokenEnv :: token_env
  insertVideo :: "js_error + string"

definition MAX_YOUTUBE_FILE_SIZE :: nat where
  "MAX_YOUTUBE_FILE_SIZE = 256 * 1024 * 1024 * 1024"

text \<open>The \<open>catch\<close> of \<open>uploadVideo\<close>: every failure is rethrown under one of four messages.\<close>

definition upload_failure :: "js_error \<Rightarrow> js_error" where
  "upload_failure e =
     (if code e = Some 403 \<or> js_includes (message e) ''quota''
      then Error None ''YouTube API quota exceeded - please try again later''
      else if code e = Some 401 \<or> js_includes (message e) ''invalid_grant''
      then Error None ''YouTube authentication failed - user needs to re-authenticate''
      else if js_includes (message e) ''ENOENT'' \<or> js_includes (message e) ''file not found''
      then Error None ''Video file was deleted before upload completed''
      else Error None (''Upload failed: '' @ message e))"

definition uploadVideo ::
  "publish_env \<Rightarrow> nat \<Rightarrow> world \<Rightarrow> (js_error + string \<times> string) \<times> world" where
  "uploadVideo env usrId w =
     (if \<not> uploadExists env then (Inl (upload_failure (Error None ''Video file not found'')), w)
      else
        (case uploadStat env of
           Inl e \<Rightarrow> (Inl (upload_failure e), w)
         | Inr sz \<Rightarrow>
             if sz > MAX_YOUTUBE_FILE_SIZE
             then (Inl (upload_failure (Error None (''Video file too large: '' @ fileSizeGB env @
                                                     ''GB (YouTube limit: 256GB)''))), w)
             else
               (case getValidTokens (tokenEnv env) usrId w of
                  (Inl tokenError, w1) \<Rightarrow> (Inl (upload_failure tokenError), w1)
                | (Inr toks, w1) \<Rightarrow>
                    (case insertVideo env of
                       Inl e \<Rightarrow> (Inl (upload_failure e), called InsertVideo w1)
                     | Inr ytId \<Rightarrow>
                         (Inr (ytId, ''https://www.youtube.com/watch?v='' @ ytId),
                          called InsertVideo w1)))))"



section \<open>The pipeline runner: \<open>processUserUpload\<close> (src/jobs/uploadJob.js)\<close>

text \<open>
  What the environment answers during one run of the pipeline for one account, in the
  order of the source: the fetch, the saves of the upload log, the settled outcome of the
  download (the path of the local file, or the error the promise is rejected with), the
  local file as \<open>validateVideoFile\<close> finds it, the publish step, the clock readings, the
  saves of the account, and the results of the best-effort acknowledgement and cleanup
  (\<open>markAsDownloaded\<close> and \<open>cleanupFile\<close> return a boolean and never throw; the run
  goes on whatever they return).
\<close>

record script =
  fetch :: http_outcome
  logSaveCreate :: "js_error option"
  download :: "js_error + string"
  fileExists :: bool
  fileStat :: "js_error + nat"
  logSaveUploading :: "js_error option"
  publish :: publish_env
  uploadStartTime :: int
  uploadEndTime :: int
  uploadedAtTime :: int
  logSaveSuccess :: "js_error option"
  lastUploadTime :: int
  userSaveStats :: "js_error option"
  markDownloaded :: bool
  cleanupOk :: bool
  logSaveFailed :: "js_error option"
  userSaveFailed :: "js_error option"

text \<open>
  The variables of one run: the world, the cycle's \<open>results\<close> object, the account
  document \<open>user\<close>, and the locals \<open>videoData\<close>, \<open>filePath\<close> and \<open>uploadLog\<close>, which the
  \<open>catch\<close> block reads as the \<open>try\<close> block left them.
\<close>

record run =
  r_world :: world
  r_results :: results
  r_user :: account_doc
  r_video :: "video option"
  r_file :: "string option"
  r_log :: "log_doc option"

definition finish_stage ::
  "script \<Rightarrow> video \<Rightarrow> string \<Rightarrow> log_doc \<Rightarrow> string \<Rightarrow> string \<Rightarrow> run \<Rightarrow> (js_error + unit) \<times> run" where
  "finish_stage sc v path l ytId url r =
     (let uploadDuration = (uploadEndTime sc - uploadStartTime sc) div 1000;
          l1 = l\<lparr>entry := (entry l)\<lparr>status := Success, youtubeVideoId := Some ytId,
                                     uploadedAt := Some (uploadedAtTime sc),
                                     duration := Some uploadDuration\<rparr>\<rparr>
      in case save_log (logSaveSuccess sc) l1 (r_world r) of
           (Inl e, w1) \<Rightarrow> (Inl e, r\<lparr>r_log := Some l1, r_world := w1\<rparr>)
         | (Inr l2, w1) \<Rightarrow>
             (let u = r_user r;
                  u1 = u\<lparr>doc := (doc u)\<lparr>lastUploadDate := Some (lastUploadTime sc),
                                          totalUploads := totalUploads (doc u) + 1\<rparr>\<rparr>
              in case save_user (userSaveStats sc) u1 w1 of
                   (Inl e, w2) \<Rightarrow> (Inl e, r\<lparr>r_log := Some l2, r_user := u1, r_world := w2\<rparr>)
                 | (Inr u2, w2) \<Rightarrow>
                     (let w3 = called (CleanupFile path) (called (MarkAsDownloaded (vid v)) w2);
                          res = r_results r;
                          item = \<lparr>s_userEmail = email (doc u2), s_videoTitle = title v,
                                  s_videoUrl = url, s_duration = formatDuration uploadDuration\<rparr>
                      in (Inr (), r\<lparr>r_log := Some l2, r_user := u2, r_world := w3,
                                     r_results := res\<lparr>successful := successful res @ [item]\<rparr>\<rparr>))))"

definition publish_stage ::
  "script \<Rightarrow> video \<Rightarrow> string \<Rightarrow> log_doc \<Rightarrow> run \<Rightarrow> (js_error + unit) \<times> run" where
  "publish_stage sc v path l r =
     (let l1 = l\<lparr>entry := (entry l)\<lparr>status := Uploading\<rparr>\<rparr>
      in case save_log (logSaveUploading sc) l1 (r_world r) of
           (Inl e, w1) \<Rightarrow> (Inl e, r\<lparr>r_log := Some l1, r_world := w1\<rparr>)
         | (Inr l2, w1) \<Rightarrow>
             (case uploadVideo (publish sc) (uid (doc (r_user r))) w1 of
                (Inl e, w2) \<Rightarrow> (Inl e, r\<lparr>r_log := Some l2, r_world := w2\<rparr>)
              | (Inr (ytId, url), w2) \<Rightarrow>
                  finish_stage sc v path l2 ytId url (r\<lparr>r_log := Some l2, r_world := w2\<rparr>)))"

definition download_stage :: "script \<Rightarrow> video \<Rightarrow> run \<Rightarrow> (js_error + unit) \<times> run" where
  "download_stage sc v r =
     (let l0 = \<lparr>entry = \<lparr>userId = uid (doc (r_user r)), videoId = vid v, videoTitle = title v,
                          videoFilename = filename v, status = Downloading,
                          youtubeVideoId = None, errorMessage = None, uploadedAt = None,
                          duration = None\<rparr>,
                 slot = None\<rparr>
      in case save_log (logSaveCreate sc) l0 (r_world r) of
           (Inl e, w1) \<Rightarrow> (Inl e, r\<lparr>r_log := Some l0, r_world := w1\<rparr>)
         | (Inr l1, w1) \<Rightarrow>
             (let r2 = r\<lparr>r_log := Some l1, r_world := called (DownloadVideo (vid v)) w1\<rparr>
              in case download sc of
                   Inl e \<Rightarrow> (Inl e, r2)
                 | Inr path \<Rightarrow>
                     (let r3 = r2\<lparr>r_file := Some path\<rparr>
                      in case validateVideoFile (fileExists sc) (fileStat sc) of
                           Inl validationError \<Rightarrow>
                             (Inl (Error None (''Video file validation failed: '' @
                                               message validationError)), r3)
                         | Inr ok \<Rightarrow> publish_stage sc v path l1 r3)))"

text \<open>The \<open>try\<close> block: \<open>Inr ()\<close> when it completes or returns early, \<open>Inl e\<close> when it throws.\<close>

definition try_block :: "script \<Rightarrow> run \<Rightarrow> (js_error + unit) \<times> run" where
  "try_block sc r =
     (let r1 = r\<lparr>r_world := called GetNextVideo (r_world r)\<rparr>
      in case getNextVideo (fetch sc) of
           Inl e \<Rightarrow> (Inl e, r1)
         | Inr None \<Rightarrow> (Inr (), r1\<lparr>r_results := (r_results r1)\<lparr>noVideos := True\<rparr>\<rparr>)
         | Inr (Some videoData) \<Rightarrow> download_stage sc videoData (r1\<lparr>r_video := Some videoData\<rparr>))"

text \<open>\<open>videoData?.title || 'Unknown'\<close>\<close>

definition title_or_unknown :: "video option \<Rightarrow> string" where
  "title_or_unknown videoData =
     (case videoData of
        None \<Rightarrow> ''Unknown''
      | Some v \<Rightarrow> if title v = [] then ''Unknown'' else title v)"

definition needs_reauth :: "js_error \<Rightarrow> bool" where
  "needs_reauth e \<longleftrightarrow>
     js_includes (message e) ''authentication'' \<or> js_includes (message e) ''re-authenticate''"

text \<open>
  The \<open>catch\<close> block, step by step: the upload log is marked failed and saved, the
  account's failure counter is raised and the account saved, the local file is cleaned
  up, the notice is sent, and the failure is pushed to \<open>results.failed\<close>. The two saves
  are guarded by their own \<open>try\<close>, and \<open>cleanupFile\<close> and the email service catch
  their own failures, so the block itself does not throw.
\<close>

definition fail_log :: "script \<Rightarrow> js_error \<Rightarrow> run \<Rightarrow> run" where
  "fail_log sc e r =
     (case r_log r of
        None \<Rightarrow> r
      | Some l \<Rightarrow>
          (let l1 = l\<lparr>entry := (entry l)\<lparr>status := Failed, errorMessage := Some (message e)\<rparr>\<rparr>
           in case save_log (logSaveFailed sc) l1 (r_world r) of
                (Inl logError, w1) \<Rightarrow> r\<lparr>r_log := Some l1, r_world := w1\<rparr>
              | (Inr l2, w1) \<Rightarrow> r\<lparr>r_log := Some l2, r_world := w1\<rparr>))"

definition fail_user :: "script \<Rightarrow> run \<Rightarrow> run" where
  "fail_user sc r =
     (let u = r_user r;
          u1 = u\<lparr>doc := (doc u)\<lparr>failedUploads := failedUploads (doc u) + 1\<rparr>\<rparr>
      in case save_user (userSaveFailed sc) u1 (r_world r) of
           (Inl userError, w2) \<Rightarrow> r\<lparr>r_user := u1, r_world := w2\<rparr>
         | (Inr u2, w2) \<Rightarrow> r\<lparr>r_user := u2, r_world := w2\<rparr>)"

definition fail_cleanup :: "run \<Rightarrow> run" where
  "fail_cleanup r =
     (case r_file r of
        None \<Rightarrow> r
      | Some path \<Rightarrow>
          if path = [] then r
          else r\<lparr>r_world := called (CleanupFile path) (r_world r)\<rparr>)"

definition failure_notice :: "js_error \<Rightarrow> run \<Rightarrow> notice" where
  "failure_notice e r =
     (if needs_reauth e
      then ReAuthenticationRequired (email (doc (r_user r))) (channelTitle (doc (r_user r)))
      else ErrorNotification (email (doc (r_user r))) (title_or_unknown (r_video r)) (message e))"

definition fail_notify :: "js_error \<Rightarrow> run \<Rightarrow> run" where
  "fail_notify e r =
     r\<lparr>r_world := (r_world r)\<lparr>outbox := outbox (r_world r) @ [failure_notice e r]\<rparr>\<rparr>"

definition fail_push :: "js_error \<Rightarrow> run \<Rightarrow> run" where
  "fail_push e r =
     (let res = r_results r;
          item = \<lparr>f_userEmail = email (doc (r_user r)),
                  f_videoTitle = title_or_unknown (r_video r), f_error = message e\<rparr>
      in r\<lparr>r_results := res\<lparr>failed := failed res @ [item]\<rparr>\<rparr>)"

definition catch_block :: "script \<Rightarrow> js_error \<Rightarrow> run \<Rightarrow> run" where
  "catch_block sc e r =
     fail_push e (fail_notify e (fail_cleanup (fail_user sc (fail_log sc e r))))"

definition processUserUpload :: "script \<Rightarrow> account_doc \<Rightarrow> results \<Rightarrow> world \<Rightarrow> run" where
  "processUserUpload sc usr res w =
     (case try_block sc \<lparr>r_world = w, r_results = res, r_user = usr, r_video = None,
                          r_file = None, r_log = None\<rparr> of
        (Inr done, r) \<Rightarrow> r
      | (Inl e, r) \<Rightarrow> catch_block sc e r)"


section \<open>The cycle scheduler: \<open>processUploads\<close> (src/jobs/uploadJob.js)\<close>

record job =
  isRunning :: bool
  skippedCycles :: nat

text \<open>
  What the environment answers during one cycle: whether the database connection is
  ready, whether the query for the accounts fails, and the script of each account's
  run.
\<close>

record cycle_env =
  dbConnected :: bool
  findError :: "js_error option"
  scripts :: "nat \<Rightarrow> script"

definition sendUploadReport :: "results \<Rightarrow> world \<Rightarrow> world" where
  "sendUploadReport res w = w\<lparr>outbox := outbox w @ [UploadReport res]\<rparr>"

text \<open>
  The loop over the selected accounts. \<open>processUserUpload\<close> catches every failure of its
  own, so the loop's \<open>catch\<close> has nothing to catch.
\<close>

fun process_users :: "(nat \<Rightarrow> script) \<Rightarrow> user list \<Rightarrow> world \<times> results \<Rightarrow> world \<times> results" where
  "process_users scs [] st = st"
| "process_users scs (u # us) (w, res) =
     (let r = processUserUpload (scs (uid u)) (load u) res w
      in process_users scs us (r_world r, r_results r))"

text \<open>
  The active accounts by ascending last upload date (never served first), at most 100.
\<close>

definition select_users :: "world \<Rightarrow> user list" where
  "select_users w = take 100 (sort_key lastUploadDate (filter isActive (users w)))"

definition cycle_body :: "cycle_env \<Rightarrow> world \<Rightarrow> world \<times> results" where
  "cycle_body env w =
     (let results0 = \<lparr>successful = [], failed = [], totalUsers = 0, noVideos = False,
                      dbError = False\<rparr>
      in if \<not> dbConnected env
         then (let res = results0\<lparr>dbError := True\<rparr> in (sendUploadReport res w, res))
         else
           (case findError env of
              Some e \<Rightarrow> (sendUploadReport results0 w, results0)
            | None \<Rightarrow>
                (let us = select_users w;
                     res1 = results0\<lparr>totalUsers := length us\<rparr>
                 in if us = [] then (sendUploadReport res1 w, res1)
                    else (case process_users (scripts env) us (w, res1) of
                            (w2, res2) \<Rightarrow> (sendUploadReport res2 w2, res2)))))"

text \<open>
  \<open>processUploads\<close>. A trigger that finds a cycle running only counts the skip. A cycle
  that starts sets the flag and resets the counter (\<open>enter_cycle\<close>; the test and the
  two assignments run before the first \<open>await\<close>, so no other trigger comes between
  them), runs its body, and clears the flag in \<open>finally\<close>. The third component is the
  cycle's \<open>results\<close> object, \<open>None\<close> for a dropped trigger.
\<close>

definition skip_cycle :: "job \<Rightarrow> job" where
  "skip_cycle j =
     (let j1 = j\<lparr>skippedCycles := skippedCycles j + 1\<rparr>
      in if skippedCycles j1 \<ge> 3 then j1\<lparr>skippedCycles := 0\<rparr> else j1)"

definition enter_cycle :: "job \<Rightarrow> job" where
  "enter_cycle j = j\<lparr>isRunning := True, skippedCycles := 0\<rparr>"

definition processUploads :: "cycle_env \<Rightarrow> job \<Rightarrow> world \<Rightarrow> job \<times> world \<times> results option" where
  "processUploads env j w =
     (if isRunning j then (skip_cycle j, w, None)
      else
        (let j1 = enter_cycle j
         in case cycle_body env w of
              (w1, res) \<Rightarrow> (j1\<lparr>isRunning := False\<rparr>, w1, Some res)))"




section \<open>Notions used to state the properties of a run and of a cycle\<close>

text \<open>The run gets as far as calling \<open>uploadVideo\<close>.\<close>

definition reaches_publish :: "script \<Rightarrow> bool" where
  "reaches_publish sc \<longleftrightarrow>
     (case getNextVideo (fetch sc) of Inr (Some v) \<Rightarrow> True | _ \<Rightarrow> False) \<and>
     logSaveCreate sc = None \<and> \<not> isl (download sc) \<and>
     \<not> isl (validateVideoFile (fileExists sc) (fileStat sc)) \<and> logSaveUploading sc = None"

text \<open>The number of upload logs the run has stored: none before the first successful save.\<close>

definition log_count :: "run \<Rightarrow> nat" where
  "log_count r = (case r_log r of None \<Rightarrow> 0 | Some l \<Rightarrow> if slot l = None then 0 else 1)"

definition is_report :: "notice \<Rightarrow> bool" where
  "is_report n = (case n of UploadReport res \<Rightarrow> True | _ \<Rightarrow> False)"

text \<open>An account is attempted when the fetch does not answer that no video is available.\<close>

definition attempted :: "(nat \<Rightarrow> script) \<Rightarrow> user \<Rightarrow> bool" where
  "attempted scs u \<longleftrightarrow> getNextVideo (fetch (scs (uid u))) \<noteq> Inr None"

definition attempted_accounts :: "cycle_env \<Rightarrow> world \<Rightarrow> user list" where
  "attempted_accounts env w =
     (if dbConnected env \<and> findError env = None
      then filter (attempted (scripts env)) (select_users w) else [])"


section \<open>Counting refresh exchanges; sample data\<close>

definition refresh_calls :: "world \<Rightarrow> nat" where
  "refresh_calls w =
     length (filter (\<lambda>c. case c of RefreshAccessToken r \<Rightarrow> True | _ \<Rightarrow> False) (calls w))"

text \<open>
  An account whose access token has expired, alone in the database; an authorization
  service that refuses the refresh exchange, and one that grants it; a video; and the
  scripts of four runs: one that publishes, one whose publish step is refused for quota,
  one whose refresh exchange is refused, and one that finds no video.
\<close>

definition sample_bundle :: token_bundle where
  "sample_bundle = \<lparr>access_token = Some ''old'', refresh_token = Some ''rt'', scope = None,
                     token_type = Some ''Bearer'', expiry_date = Some 1000\<rparr>"

definition sample_user :: user where
  "sample_user = \<lparr>uid = 1, email = ''a@example.com'', channelTitle = ''A'',
                   tokens = Some sample_bundle, isActive = True, lastUploadDate = None,
                   totalUploads = 0, failedUploads = 0, lastTokenRefresh = 0\<rparr>"

definition sample_world :: world where
  "sample_world = \<lparr>users = [sample_user], logs = [], outbox = [], calls = []\<rparr>"

definition sample_token_env :: token_env where
  "sample_token_env = \<lparr>now = 5000000, exchange = Inl (Error None ''invalid_grant''),
                        refreshedAt = 5000001, tokenSave = None, lookupError = None,
                        deactivateSave = None\<rparr>"

definition granting_token_env :: token_env where
  "granting_token_env = sample_token_env\<lparr>exchange := Inr (Some ''new'', Some 9000000)\<rparr>"

definition sample_video :: video where
  "sample_video = \<lparr>vid = ''v1'', title = ''T'', filename = ''f.mp4'', downloadUrl = ''http://m/f''\<rparr>"

definition ok_publish :: publish_env where
  "ok_publish = \<lparr>uploadExists = True, uploadStat = Inr 2048, fileSizeGB = ''0.00'',
                  tokenEnv = granting_token_env, insertVideo = Inr ''yt1''\<rparr>"

definition ok_script :: script where
  "ok_script = \<lparr>fetch = Response True (Some sample_video), logSaveCreate = None,
                 download = Inr ''downloads/v1_f.mp4'', fileExists = True, fileStat = Inr 2048,
                 logSaveUploading = None, publish = ok_publish, uploadStartTime = 5000000,
                 uploadEndTime = 5065000, uploadedAtTime = 5065001, logSaveSuccess = None,
                 lastUploadTime = 5065002, userSaveStats = None, markDownloaded = True,
                 cleanupOk = True, logSaveFailed = None, userSaveFailed = None\<rparr>"

definition quota_script :: script where
  "quota_script = ok_script\<lparr>publish := ok_publish\<lparr>insertVideo := Inl (Error (Some 403) ''quotaExceeded'')\<rparr>\<rparr>"


definition none_script :: script where
  "none_script = ok_script\<lparr>fetch := HttpError (Some 404) None ''Request failed with status code 404''\<rparr>"

definition empty_results :: results where
  "empty_results = \<lparr>successful = [], failed = [], totalUsers = 0, noVideos = False, dbError = False\<rparr>"




text \<open>Cycles over the sample database: one whose publish step is refused, one without videos.\<close>

definition quota_env :: cycle_env where
  "quota_env = \<lparr>dbConnected = True, findError = None, scripts = (\<lambda>i. quota_script)\<rparr>"

definition idle_env :: cycle_env where
  "idle_env = \<lparr>dbConnected = True, findError = None, scripts = (\<lambda>i. none_script)\<rparr>"

definition idle_job :: job where
  "idle_job = \<lparr>isRunning = False, skippedCycles = 0\<rparr>"


section \<open>Properties of the backoff executor\<close>

lemma retry_loop_success:
  assumes "i \<le> k" and "int k < n" and "\<forall>j. i \<le> j \<and> j < k \<longrightarrow> isl (fn j)" and "fn k = Inr v"
  shows "retry_loop fn n b i le tr = (Inr v, tr @ failed_rounds b i k @ [Invoke k])"
  using assms
proof (induction "k - i" arbitrary: i le tr)
  case 0
  then have "i = k" by simp
  with 0 show ?case
    by (simp add: failed_rounds_def)
next
  case (Suc d)
  then have lt: "i < k" by simp
  with Suc.prems have "isl (fn i)" by simp
  then obtain e where e: "fn i = Inl e" by (cases "fn i") auto
  have step: "retry_loop fn n b i le tr =
      retry_loop fn n b (Suc i) (Some e) (tr @ [Invoke i, Sleep (b * 2 ^ i)])"
    using lt Suc.prems(2) e by simp
  have "retry_loop fn n b (Suc i) (Some e) (tr @ [Invoke i, Sleep (b * 2 ^ i)]) =
      (Inr v, (tr @ [Invoke i, Sleep (b * 2 ^ i)]) @ failed_rounds b (Suc i) k @ [Invoke k])"
    using Suc.hyps(2) lt Suc.prems by (intro Suc.hyps(1)) auto
  moreover have "failed_rounds b i k = [Invoke i, Sleep (b * 2 ^ i)] @ failed_rounds b (Suc i) k"
    using lt by (simp add: failed_rounds_def upt_conv_Cons)
  ultimately show ?case
    using step by simp
qed

lemma retry_loop_exhausted:
  assumes "i < n" and "\<forall>j. i \<le> j \<and> j < n \<longrightarrow> isl (fn j)"
  shows "retry_loop fn (int n) b i le tr =
           (Inl (Some (projl (fn (n - 1)))), tr @ failed_rounds b i (n - 1) @ [Invoke (n - 1)])"
  using assms
proof (induction "n - 1 - i" arbitrary: i le tr)
  case 0
  then have i: "i = n - 1" and n: "0 < n" by simp_all
  from 0 have "isl (fn i)" by simp
  then obtain e where e: "fn i = Inl e" by (cases "fn i") auto
  have "retry_loop fn (int n) b i le tr = retry_loop fn (int n) b (Suc i) (Some e) (tr @ [Invoke i])"
    using i n e by simp
  also have "\<dots> = (Inl (Some e), tr @ [Invoke i])"
    using i n by simp
  finally show ?case
    using i e by (simp add: failed_rounds_def)
next
  case (Suc d)
  then have lt: "i < n - 1" by simp
  with Suc.prems have "isl (fn i)" by simp
  then obtain e where e: "fn i = Inl e" by (cases "fn i") auto
  from lt have guards: "int i < int n" "int i < int n - 1" by linarith+
  have step: "retry_loop fn (int n) b i le tr =
      retry_loop fn (int n) b (Suc i) (Some e) (tr @ [Invoke i, Sleep (b * 2 ^ i)])"
    using guards e by (subst retry_loop.simps) simp
  have "retry_loop fn (int n) b (Suc i) (Some e) (tr @ [Invoke i, Sleep (b * 2 ^ i)]) =
      (Inl (Some (projl (fn (n - 1)))),
       (tr @ [Invoke i, Sleep (b * 2 ^ i)]) @ failed_rounds b (Suc i) (n - 1) @ [Invoke (n - 1)])"
    using Suc.hyps(2) lt Suc.prems by (intro Suc.hyps(1)) auto
  moreover have "failed_rounds b i (n - 1) =
      [Invoke i, Sleep (b * 2 ^ i)] @ failed_rounds b (Suc i) (n - 1)"
    using lt by (simp add: failed_rounds_def upt_conv_Cons)
  ultimately show ?case
    using step by simp
qed

text \<open>
  C3. With a maximum of \<open>n \<ge> 1\<close> attempts and base delay \<open>b\<close>: if the attempts before
  attempt \<open>k\<close> (0-based, \<open>k < n\<close>) fail and attempt \<open>k\<close> succeeds, the executor returns that
  value after exactly the invocations \<open>0..k\<close>, having waited \<open>b * 2^j\<close> after each failed
  attempt \<open>j\<close> (the \<open>(j+1)\<close>-th attempt, so \<open>b * 2^(attempt-1)\<close>); if all \<open>n\<close> attempts fail
  it fails with the error of the last attempt, and the trace ends with the last
  invocation: there is no wait after it.
\<close>

theorem retryWithBackoff_contract:
  assumes "1 \<le> n"
  shows "(k < n \<and> (\<forall>j<k. isl (fn j)) \<and> fn k = Inr v \<longrightarrow>
            retryWithBackoff fn (int n) b = (Inr v, failed_rounds b 0 k @ [Invoke k]))
       \<and> ((\<forall>j<n. isl (fn j)) \<longrightarrow>
            retryWithBackoff fn (int n) b =
              (Inl (Some (projl (fn (n - 1)))), failed_rounds b 0 (n - 1) @ [Invoke (n - 1)]))"
proof (intro conjI impI)
  assume "k < n \<and> (\<forall>j<k. isl (fn j)) \<and> fn k = Inr v"
  then show "retryWithBackoff fn (int n) b = (Inr v, failed_rounds b 0 k @ [Invoke k])"
    using retry_loop_success [of 0 k "int n" fn v b None "[]"]
    by (simp add: retryWithBackoff_def)
next
  assume "\<forall>j<n. isl (fn j)"
  then show "retryWithBackoff fn (int n) b =
      (Inl (Some (projl (fn (n - 1)))), failed_rounds b 0 (n - 1) @ [Invoke (n - 1)])"
    using assms retry_loop_exhausted [of 0 n fn b None "[]"]
    by (simp add: retryWithBackoff_def)
qed

theorem retryWithBackoff_contract_witness:
  "retryWithBackoff (\<lambda>i. if i < 1 then Inl ''e'' else Inr (7::nat)) 3 1000
     = (Inr 7, [Invoke 0, Sleep 1000, Invoke 1])
   \<and> retryWithBackoff (\<lambda>i. Inl i :: nat + nat) 3 1000
     = (Inl (Some 2), [Invoke 0, Sleep 1000, Invoke 1, Sleep 2000, Invoke 2])"
proof -
  have n: "(1::nat) \<le> 3" by simp
  show ?thesis
    using retryWithBackoff_contract [OF n, of 1 "\<lambda>i. if i < 1 then Inl ''e'' else Inr (7::nat)" 7 1000]
      retryWithBackoff_contract [OF n, of 0 "\<lambda>i. Inl i :: nat + nat" 0 1000]
    by (simp add: failed_rounds_def upt_rec)
qed


section \<open>Properties of the tag formatter\<close>








section \<open>Properties of the token service\<close>

lemma merge_user_fields:
  "uid (merge_user b c u) = uid u"
  "isActive (merge_user b c u) = (if isActive c \<noteq> isActive b then isActive c else isActive u)"
  "lastUploadDate (merge_user b c u) =
     (if lastUploadDate c \<noteq> lastUploadDate b then lastUploadDate c else lastUploadDate u)"
  by (simp_all add: merge_user_def)

lemma save_user_effect:
  assumes "save_user out d w = (r, w')"
  shows "logs w' = logs w" and "outbox w' = outbox w"
    and "calls w' = calls w @ [UserSave (uid (doc d))]"
    and "out \<noteq> None \<Longrightarrow> users w' = users w \<and> r = Inl (the out)"
    and "out = None \<Longrightarrow> r = Inr (d\<lparr>saved := doc d\<rparr>) \<and>
           users w' = map (\<lambda>u. if uid u = uid (doc d) then merge_user (saved d) (doc d) u else u) (users w)"
  using assms by (auto simp: save_user_def called_def split: option.splits)

lemma refresh_calls_called [simp]:
  "refresh_calls (called c w) = refresh_calls w + (case c of RefreshAccessToken r \<Rightarrow> 1 | _ \<Rightarrow> 0)"
  by (cases c) (simp_all add: refresh_calls_def called_def)

lemma refresh_calls_users [simp]: "refresh_calls (w\<lparr>users := us\<rparr>) = refresh_calls w"
  by (simp add: refresh_calls_def)

lemma refresh_calls_save_user:
  "save_user out d w = (r, w') \<Longrightarrow> refresh_calls w' = refresh_calls w"
  by (auto simp: save_user_def split: option.splits)

lemma users_called [simp]: "users (called c w) = users w"
  and logs_called [simp]: "logs (called c w) = logs w"
  and outbox_called [simp]: "outbox (called c w) = outbox w"
  by (simp_all add: called_def)

lemma save_user_isActive:
  assumes "save_user out d w = (r, w')" and "isActive (doc d) = isActive (saved d)"
  shows "map isActive (users w') = map isActive (users w)"
  using assms by (auto simp: save_user_def merge_user_fields split: option.splits)

lemma past_one_refresh:
  assumes "tokens (doc d) = Some b" and "expiry_date b = Some x" and "x < now env"
  shows "refresh_calls (snd (snd (refreshTokenIfNeeded env d w))) = refresh_calls w + 1"
proof -
  have exp: "expiring (expiry_date b) (now env)"
    using assms by (simp add: expiring_def fiveMinutes_def)
  show ?thesis
  proof (cases "exchange env")
    case (Inl e)
    then show ?thesis using assms(1) exp by (simp add: refreshTokenIfNeeded_def)
  next
    case (Inr p)
    obtain at ex where p: "p = (at, ex)" by (cases p)
    define d1 where "d1 = d\<lparr>doc := (doc d)\<lparr>tokens := Some (b\<lparr>access_token := at, expiry_date := ex\<rparr>), lastTokenRefresh := refreshedAt env\<rparr>\<rparr>"
    obtain r w2 where s: "save_user (tokenSave env) d1 (called (RefreshAccessToken (refresh_token b)) w) = (r, w2)"
      by (cases "save_user (tokenSave env) d1 (called (RefreshAccessToken (refresh_token b)) w)")
    from refresh_calls_save_user [OF s] have "refresh_calls w2 = refresh_calls w + 1" by simp
    then show ?thesis
      using assms(1) exp Inr p s
      by (cases r) (simp_all add: refreshTokenIfNeeded_def Let_def d1_def)
  qed
qed

lemma find_map_same:
  assumes "\<And>x. P (f x) = P x"
  shows "find P (map f xs) = map_option f (find P xs)"
  using assms by (induction xs) auto



text \<open>The refresh step on a freshly loaded account.\<close>

lemma refresh_loaded:
  assumes "refreshTokenIfNeeded env (load u) w = (r, d', w')"
  shows "logs w' = logs w" and "outbox w' = outbox w"
    and "map isActive (users w') = map isActive (users w)"
    and "uid (doc d') = uid u" and "isActive (doc d') = isActive u" and "isActive (saved d') = isActive u"
    and "isl r \<Longrightarrow> r = Inl auth_expired"
    and "isl r \<Longrightarrow> tokens u \<noteq> None \<Longrightarrow>
           refresh_calls w' = refresh_calls w + 1 \<and> (isl (exchange env) \<or> tokenSave env \<noteq> None)"
  using assms
  by (auto simp: refreshTokenIfNeeded_def load_def Let_def save_user_def merge_user_fields
           split: option.splits if_splits sum.splits prod.splits)





text \<open>
  C8. With a clock that reads a time since the epoch (\<open>0 \<le> t\<close>), the credential is treated
  as expiring exactly when no expiry is recorded or the clock is within five minutes of
  the recorded expiry (or past it). When the recorded expiry is in the past,
  \<open>refreshTokenIfNeeded\<close> makes exactly one refresh call, whatever the call and the save
  after it answer. When the credential is not expiring it returns the stored bundle
  and leaves the document and the world as they are: no call, no write.
\<close>

theorem refreshTokenIfNeeded_contract:
  "(0 \<le> t \<longrightarrow> (expiring e t \<longleftrightarrow> e = None \<or> (\<exists>x. e = Some x \<and> x - 5 * 60 * 1000 \<le> t)))
   \<and> (tokens (doc d) = Some b \<and> expiry_date b = Some x \<and> x < now env \<longrightarrow>
        refresh_calls (snd (snd (refreshTokenIfNeeded env d w))) = refresh_calls w + 1)
   \<and> (tokens (doc d) = Some b \<and> \<not> expiring (expiry_date b) (now env) \<longrightarrow>
        refreshTokenIfNeeded env d w = (Inr b, d, w))"
proof (intro conjI impI)
  assume "0 \<le> t"
  then show "expiring e t \<longleftrightarrow> e = None \<or> (\<exists>x. e = Some x \<and> x - 5 * 60 * 1000 \<le> t)"
    by (auto simp: expiring_def fiveMinutes_def split: option.splits)
next
  assume "tokens (doc d) = Some b \<and> expiry_date b = Some x \<and> x < now env"
  then show "refresh_calls (snd (snd (refreshTokenIfNeeded env d w))) = refresh_calls w + 1"
    using past_one_refresh by blast
next
  assume "tokens (doc d) = Some b \<and> \<not> expiring (expiry_date b) (now env)"
  then show "refreshTokenIfNeeded env d w = (Inr b, d, w)"
    by (simp add: refreshTokenIfNeeded_def)
qed

theorem refreshTokenIfNeeded_contract_witness:
  "expiring (Some 1000) 5000000 \<and>
   refresh_calls (snd (snd (refreshTokenIfNeeded sample_token_env (load sample_user) sample_world))) = 1 \<and>
   refreshTokenIfNeeded sample_token_env
      (load (sample_user\<lparr>tokens := Some (sample_bundle\<lparr>expiry_date := Some 10000000\<rparr>)\<rparr>)) sample_world
     = (Inr (sample_bundle\<lparr>expiry_date := Some 10000000\<rparr>),
        load (sample_user\<lparr>tokens := Some (sample_bundle\<lparr>expiry_date := Some 10000000\<rparr>)\<rparr>),
        sample_world)"
  using refreshTokenIfNeeded_contract [of 5000000 "Some 1000" "load sample_user" sample_bundle 1000
      sample_token_env sample_world]
    refreshTokenIfNeeded_contract [of 0 None
      "load (sample_user\<lparr>tokens := Some (sample_bundle\<lparr>expiry_date := Some 10000000\<rparr>)\<rparr>)"
      "sample_bundle\<lparr>expiry_date := Some 10000000\<rparr>" 0 sample_token_env sample_world]
  by (simp add: sample_user_def sample_bundle_def sample_token_env_def sample_world_def load_def
      refresh_calls_def expiring_def fiveMinutes_def)


section \<open>Properties of the scheduler's guard\<close>




section \<open>Properties of the download\<close>

lemma handle_chunks:
  assumes "\<forall>ev \<in> set pre. is_chunk ev" and "promise s = None" and "timerArmed s"
  shows "promise (foldl (handle p) s pre) = None \<and> timerArmed (foldl (handle p) s pre)"
  using assms
proof (induction pre arbitrary: s)
  case Nil
  then show ?case by simp
next
  case (Cons ev pre)
  then obtain n where "ev = Chunk n" by (cases ev) (auto simp: is_chunk_def)
  with Cons show ?case by simp
qed

lemma handle_settled:
  assumes "promise s = Some r" and "\<not> artifact s" and "\<not> writerOpen s"
  shows "promise (foldl (handle p) s post) = Some r \<and> \<not> artifact (foldl (handle p) s post)"
  using assms
proof (induction post arbitrary: s)
  case Nil
  then show ?case by simp
next
  case (Cons ev post)
  have "promise (handle p s ev) = Some r \<and> \<not> artifact (handle p s ev) \<and> \<not> writerOpen (handle p s ev)"
    using Cons.prems by (cases ev) (simp_all add: settle_def)
  with Cons.IH show ?case by simp
qed

lemma stream_times_out:
  assumes "\<forall>ev \<in> set pre. is_chunk ev"
  shows "promise (foldl (handle p) streaming (pre @ TimerExpired # post)) = Some (Inl download_timeout)
       \<and> \<not> artifact (foldl (handle p) streaming (pre @ TimerExpired # post))"
proof -
  define s where "s = foldl (handle p) streaming pre"
  have s: "promise s = None \<and> timerArmed s"
    unfolding s_def using assms by (intro handle_chunks) (simp_all add: streaming_def)
  define s' where "s' = handle p s TimerExpired"
  have "promise s' = Some (Inl download_timeout) \<and> \<not> artifact s' \<and> \<not> writerOpen s'"
    using s by (simp add: s'_def settle_def)
  then have "promise (foldl (handle p) s' post) = Some (Inl download_timeout)
      \<and> \<not> artifact (foldl (handle p) s' post)"
    by (intro handle_settled) simp_all
  then show ?thesis
    by (simp add: s_def s'_def)
qed

text \<open>
  C9. A download whose request was answered and whose stream has delivered nothing but
  chunks when the 15 minute timer expires (it has signalled neither completion nor an
  error) is rejected with the timeout error, and the file is not on local storage,
  whatever events follow.
\<close>

theorem downloadVideo_timeout:
  assumes "request env = Inr contentLength"
    and "\<forall>n. contentLength = Some n \<longrightarrow> n \<le> MAX_VIDEO_SIZE"
    and "events env = pre @ TimerExpired # post"
    and "\<forall>ev \<in> set pre. is_chunk ev"
  shows "downloadVideo env filePath = (Some (Inl download_timeout), False)"
  using assms(1-3) stream_times_out [OF assms(4), of filePath post]
  by (cases contentLength) (auto simp: downloadVideo_def Let_def)

theorem downloadVideo_timeout_witness:
  "downloadVideo \<lparr>request = Inr (Some 4096), events = [Chunk 1024, Chunk 1024, TimerExpired, Chunk 1024]\<rparr>
      ''downloads/v1_f.mp4''
     = (Some (Inl (Error None ''Download timeout - took too long'')), False)"
proof -
  have a: "\<forall>n. Some (4096::nat) = Some n \<longrightarrow> n \<le> MAX_VIDEO_SIZE"
    by (simp add: MAX_VIDEO_SIZE_def)
  have b: "\<forall>ev \<in> set [Chunk 1024, Chunk 1024]. is_chunk ev"
    by (simp add: is_chunk_def)
  show ?thesis
    using downloadVideo_timeout [of "\<lparr>request = Inr (Some 4096), events = [Chunk 1024, Chunk 1024, TimerExpired, Chunk 1024]\<rparr>"
        "Some 4096" "[Chunk 1024, Chunk 1024]" "[Chunk 1024]" "''downloads/v1_f.mp4''", OF _ a _ b]
    by (simp add: download_timeout_def)
qed


section \<open>Properties of the pipeline runner\<close>

lemma save_log_frame:
  assumes "save_log out l w = (r, w')"
  shows "users w' = users w \<and> outbox w' = outbox w \<and>
         (case r of
            Inl e \<Rightarrow> logs w' = logs w
          | Inr l' \<Rightarrow> slot l' \<noteq> None \<and>
              length (logs w') = length (logs w) + (if slot l = None then 1 else 0))"
  using assms by (auto simp: save_log_def called_def split: option.splits)

lemma save_user_frame:
  assumes "save_user out d w = (r, w')"
  shows "logs w' = logs w \<and> outbox w' = outbox w \<and>
         (case r of Inl e \<Rightarrow> True | Inr d' \<Rightarrow> doc d' = doc d)"
  using assms by (auto simp: save_user_def called_def split: option.splits)

lemma save_user_dates:
  assumes "save_user out d w = (r, w')" and "lastUploadDate (doc d) = lastUploadDate (saved d)"
  shows "map lastUploadDate (users w') = map lastUploadDate (users w)"
  using assms by (auto simp: save_user_def merge_user_fields split: option.splits)

lemma refresh_loaded_dates:
  assumes "refreshTokenIfNeeded env (load u) w = (r, d', w')"
  shows "map lastUploadDate (users w') = map lastUploadDate (users w) \<and>
         lastUploadDate (doc d') = lastUploadDate u \<and> lastUploadDate (saved d') = lastUploadDate u"
  using assms
  by (auto simp: refreshTokenIfNeeded_def load_def Let_def save_user_def merge_user_fields
           split: option.splits if_splits sum.splits prod.splits)

lemma getValidTokens_frame:
  assumes "getValidTokens env i w = (r, w')"
  shows "logs w' = logs w \<and> outbox w' = outbox w \<and>
         map lastUploadDate (users w') = map lastUploadDate (users w)"
proof (cases "lookupError env = None \<and> (\<exists>u. findById i w = Some u \<and> \<not> no_bundle u)")
  case False
  then have "w' = w"
    using assms by (auto simp: getValidTokens_def split: option.splits if_splits)
  then show ?thesis by simp
next
  case True
  then obtain u where u: "lookupError env = None" "findById i w = Some u" "\<not> no_bundle u"
    by blast
  obtain r1 d1 w1 where rt: "refreshTokenIfNeeded env (load u) w = (r1, d1, w1)"
    by (cases "refreshTokenIfNeeded env (load u) w") auto
  note a = refresh_loaded(1,2) [OF rt] refresh_loaded_dates [OF rt]
  show ?thesis
  proof (cases r1)
    case (Inr t)
    then have "w' = w1"
      using assms u rt by (simp add: getValidTokens_def)
    with a show ?thesis by simp
  next
    case (Inl e)
    define d2 where "d2 = d1\<lparr>doc := (doc d1)\<lparr>isActive := False\<rparr>\<rparr>"
    obtain r2 w2 where sv: "save_user (deactivateSave env) d2 w1 = (r2, w2)"
      by (cases "save_user (deactivateSave env) d2 w1")
    have "w' = w2"
      using assms u rt Inl sv by (cases r2) (simp_all add: getValidTokens_def d2_def)
    moreover have "lastUploadDate (doc d2) = lastUploadDate (saved d2)"
      using a(3) by (simp add: d2_def)
    ultimately show ?thesis
      using a save_user_frame [OF sv] save_user_dates [OF sv] by simp
  qed
qed

lemma uploadVideo_frame:
  assumes "uploadVideo env i w = (r, w')"
  shows "logs w' = logs w \<and> outbox w' = outbox w \<and>
         map lastUploadDate (users w') = map lastUploadDate (users w)"
proof (cases "uploadExists env \<and> (\<exists>sz. uploadStat env = Inr sz \<and> \<not> sz > MAX_YOUTUBE_FILE_SIZE)")
  case False
  then have "w' = w"
    using assms by (auto simp: uploadVideo_def split: sum.splits if_splits)
  then show ?thesis by simp
next
  case True
  then obtain sz where sz: "uploadExists env" "uploadStat env = Inr sz" "\<not> sz > MAX_YOUTUBE_FILE_SIZE"
    by blast
  obtain r1 w1 where gv: "getValidTokens (tokenEnv env) i w = (r1, w1)"
    by (cases "getValidTokens (tokenEnv env) i w")
  have "w' = w1 \<or> w' = called InsertVideo w1"
    using assms sz gv by (auto simp: uploadVideo_def split: sum.splits)
  then show ?thesis
    using getValidTokens_frame [OF gv] by auto
qed

lemma finish_stage_effect:
  assumes "finish_stage sc v path l ytId url r = (out, r')" and "slot l \<noteq> None"
  shows "outbox (r_world r') = outbox (r_world r) \<and>
         length (logs (r_world r')) = length (logs (r_world r)) \<and>
         log_count r' = 1 \<and> r_video r' = r_video r \<and> r_file r' = r_file r \<and>
         failed (r_results r') = failed (r_results r) \<and>
         noVideos (r_results r') = noVideos (r_results r) \<and>
         totalUsers (r_results r') = totalUsers (r_results r) \<and>
         dbError (r_results r') = dbError (r_results r) \<and>
         (case out of
            Inl e \<Rightarrow> successful (r_results r') = successful (r_results r)
          | Inr done \<Rightarrow> \<exists>item. successful (r_results r') = successful (r_results r) @ [item])"
  using assms
  by (auto simp: finish_stage_def Let_def log_count_def
           split: prod.splits sum.splits dest!: save_log_frame save_user_frame)


lemma finish_stage_dates:
  assumes "finish_stage sc v path l ytId url r = (out, r')"
  shows "(out = Inr () \<longrightarrow> lastUploadDate (doc (r_user r')) = Some (lastUploadTime sc)) \<and>
         email (doc (r_user r')) = email (doc (r_user r)) \<and>
         channelTitle (doc (r_user r')) = channelTitle (doc (r_user r))"
  using assms
  by (auto simp: finish_stage_def Let_def
           split: prod.splits sum.splits dest!: save_user_frame)

lemma try_block_at_publish:
  assumes "reaches_publish sc" and "r_log r = None"
  shows "\<exists>v path l W R.
           getNextVideo (fetch sc) = Inr (Some v) \<and>
           users W = users (r_world r) \<and> outbox W = outbox (r_world r) \<and>
           length (logs W) = length (logs (r_world r)) + 1 \<and> slot l \<noteq> None \<and>
           r_user R = r_user r \<and> r_results R = r_results r \<and> r_video R = Some v \<and>
           r_file R = Some path \<and> r_log R = Some l \<and> r_world R = W \<and>
           try_block sc r =
             (case uploadVideo (publish sc) (uid (doc (r_user r))) W of
                (Inl e, w2) \<Rightarrow> (Inl e, R\<lparr>r_world := w2\<rparr>)
              | (Inr (ytId, url), w2) \<Rightarrow> finish_stage sc v path l ytId url (R\<lparr>r_world := w2\<rparr>))"
proof -
  from assms(1) obtain v where v: "getNextVideo (fetch sc) = Inr (Some v)"
    by (auto simp: reaches_publish_def split: sum.splits option.splits)
  from assms(1) obtain path where path: "download sc = Inr path"
    by (cases "download sc") (auto simp: reaches_publish_def)
  from assms(1) have val: "validateVideoFile (fileExists sc) (fileStat sc) = Inr ()"
    by (cases "validateVideoFile (fileExists sc) (fileStat sc)") (auto simp: reaches_publish_def)
  from assms(1) have sv: "logSaveCreate sc = None" "logSaveUploading sc = None"
    by (auto simp: reaches_publish_def)
  define l0 :: log_doc where "l0 = \<lparr>entry = \<lparr>userId = uid (doc (r_user r)), videoId = vid v, videoTitle = title v,
                          videoFilename = filename v, status = Downloading,
                          youtubeVideoId = None, errorMessage = None, uploadedAt = None,
                          duration = None\<rparr>, slot = None\<rparr>"
  define w0 where "w0 = called GetNextVideo (r_world r)"
  define l1 where "l1 = l0\<lparr>slot := Some (length (logs w0))\<rparr>"
  define w1 where "w1 = called (DownloadVideo (vid v)) (called LogSave (w0\<lparr>logs := logs w0 @ [entry l0]\<rparr>))"
  define l2 where "l2 = l1\<lparr>entry := (entry l1)\<lparr>status := Uploading\<rparr>\<rparr>"
  define W where "W = called LogSave (w1\<lparr>logs := (logs w1)[length (logs w0) := entry l2]\<rparr>)"
  define R where "R = r\<lparr>r_video := Some v, r_file := Some path, r_log := Some l2, r_world := W\<rparr>"
  have s1: "save_log None l0 w0 = (Inr l1, called LogSave (w0\<lparr>logs := logs w0 @ [entry l0]\<rparr>))"
    by (simp add: save_log_def l0_def l1_def)
  have s2: "save_log None l2 w1 = (Inr l2, W)"
    by (simp add: save_log_def l2_def l1_def W_def)
  have "try_block sc r =
             (case uploadVideo (publish sc) (uid (doc (r_user r))) W of
                (Inl e, w2) \<Rightarrow> (Inl e, R\<lparr>r_world := w2\<rparr>)
              | (Inr (ytId, url), w2) \<Rightarrow> finish_stage sc v path l2 ytId url (R\<lparr>r_world := w2\<rparr>))"
    using v path val sv s1 s2
    by (simp add: try_block_def download_stage_def publish_stage_def Let_def
          l0_def [symmetric] w0_def [symmetric] l1_def [symmetric] w1_def [symmetric] l2_def [symmetric] R_def
          split: prod.splits sum.splits)
  moreover have "users W = users (r_world r)" "outbox W = outbox (r_world r)"
    "length (logs W) = length (logs (r_world r)) + 1" "slot l2 \<noteq> None"
    by (simp_all add: W_def w1_def w0_def l2_def l1_def called_def)
  moreover have "r_user R = r_user r" "r_results R = r_results r" "r_video R = Some v"
    "r_file R = Some path" "r_log R = Some l2" "r_world R = W"
    by (simp_all add: R_def)
  ultimately show ?thesis
    using v by blast
qed


lemma try_block_effect:
  assumes "try_block sc r = (out, r')" and "r_log r = None"
  shows "outbox (r_world r') = outbox (r_world r) \<and>
         length (logs (r_world r')) = length (logs (r_world r)) + log_count r' \<and>
         failed (r_results r') = failed (r_results r) \<and>
         totalUsers (r_results r') = totalUsers (r_results r) \<and>
         dbError (r_results r') = dbError (r_results r) \<and>
         email (doc (r_user r')) = email (doc (r_user r)) \<and>
         channelTitle (doc (r_user r')) = channelTitle (doc (r_user r)) \<and>
         (\<not> reaches_publish sc \<longrightarrow>
            r_user r' = r_user r \<and> users (r_world r') = users (r_world r)) \<and>
         (case out of
            Inl e \<Rightarrow> r_results r' = r_results r
          | Inr done \<Rightarrow>
              if getNextVideo (fetch sc) = Inr None
              then r' = r\<lparr>r_world := called GetNextVideo (r_world r),
                           r_results := (r_results r)\<lparr>noVideos := True\<rparr>\<rparr>
              else noVideos (r_results r') = noVideos (r_results r) \<and>
                   lastUploadDate (doc (r_user r')) = Some (lastUploadTime sc) \<and>
                   (\<exists>item. successful (r_results r') = successful (r_results r) @ [item]))"
proof (cases "reaches_publish sc")
  case True
  from try_block_at_publish [OF True assms(2)]
  obtain v path l W R where p:
    "getNextVideo (fetch sc) = Inr (Some v)"
    "users W = users (r_world r)" "outbox W = outbox (r_world r)"
    "length (logs W) = length (logs (r_world r)) + 1" "slot l \<noteq> None"
    "r_user R = r_user r" "r_results R = r_results r" "r_video R = Some v"
    "r_file R = Some path" "r_log R = Some l" "r_world R = W"
    "try_block sc r =
       (case uploadVideo (publish sc) (uid (doc (r_user r))) W of
          (Inl e, w2) \<Rightarrow> (Inl e, R\<lparr>r_world := w2\<rparr>)
        | (Inr (ytId, url), w2) \<Rightarrow> finish_stage sc v path l ytId url (R\<lparr>r_world := w2\<rparr>))"
    by blast
  obtain ur w2 where uv: "uploadVideo (publish sc) (uid (doc (r_user r))) W = (ur, w2)"
    by (cases "uploadVideo (publish sc) (uid (doc (r_user r))) W")
  note fr = uploadVideo_frame [OF uv]
  show ?thesis
  proof (cases ur)
    case (Inl e)
    then have "out = Inl e" "r' = R\<lparr>r_world := w2\<rparr>"
      using p(12) uv assms(1) by simp_all
    then show ?thesis
      using p fr True by (simp add: log_count_def)
  next
    case (Inr pr)
    obtain ytId url where pr: "pr = (ytId, url)" by (cases pr)
    have fin: "finish_stage sc v path l ytId url (R\<lparr>r_world := w2\<rparr>) = (out, r')"
      using p(12) uv assms(1) Inr pr by simp
    from finish_stage_effect [OF fin p(5)] finish_stage_dates [OF fin] p fr True
    show ?thesis
      by (cases out) (simp_all add: log_count_def)
  qed
next
  case False
  note defs = try_block_def download_stage_def publish_stage_def Let_def log_count_def
    called_def save_log_def
  show ?thesis
  proof (cases "getNextVideo (fetch sc)")
    case (Inl e)
    then show ?thesis using assms by (auto simp: defs)
  next
    case (Inr vo)
    show ?thesis
    proof (cases vo)
      case None
      then show ?thesis using assms Inr by (auto simp: defs)
    next
      case (Some v)
      show ?thesis
      proof (cases "logSaveCreate sc")
        case (Some e)
        then show ?thesis using assms Inr \<open>vo = Some v\<close> by (auto simp: defs)
      next
        case None
        note create = this
        show ?thesis
        proof (cases "download sc")
          case (Inl e)
          then show ?thesis using assms Inr \<open>vo = Some v\<close> create by (auto simp: defs)
        next
          case (Inr path)
          note dl = this
          show ?thesis
          proof (cases "validateVideoFile (fileExists sc) (fileStat sc)")
            case (Inl e)
            then show ?thesis
              using assms \<open>getNextVideo (fetch sc) = Inr vo\<close> \<open>vo = Some v\<close> create dl
              by (auto simp: defs)
          next
            case (Inr ok)
            with False \<open>getNextVideo (fetch sc) = Inr vo\<close> \<open>vo = Some v\<close> create dl
            obtain e where "logSaveUploading sc = Some e"
              by (auto simp: reaches_publish_def)
            then show ?thesis
              using assms \<open>getNextVideo (fetch sc) = Inr vo\<close> \<open>vo = Some v\<close> create dl Inr
              by (auto simp: defs)
          qed
        qed
      qed
    qed
  qed
qed



lemma save_user_findById:
  assumes "save_user out d w = (r, w')" and "isActive (doc d) = isActive (saved d)"
  shows "map_option isActive (findById j w') = map_option isActive (findById j w)"
proof (cases out)
  case (Some e)
  then show ?thesis using assms(1) by (auto simp: save_user_def findById_def called_def)
next
  case None
  let ?f = "\<lambda>u. if uid u = uid (doc d) then merge_user (saved d) (doc d) u else u"
  have "users w' = map ?f (users w)"
    using save_user_effect(5) [OF assms(1)] None by simp
  moreover have "\<And>x. (uid (?f x) = j) = (uid x = j)"
    by (simp add: merge_user_fields)
  ultimately have "findById j w' = map_option ?f (findById j w)"
    unfolding findById_def by (simp add: find_map_same [where f = ?f])
  moreover have "\<And>x. isActive (?f x) = isActive x"
    using assms(2) by (simp add: merge_user_fields)
  ultimately show ?thesis
    by (cases "findById j w") simp_all
qed

lemma fail_log_effect:
  "users (r_world (fail_log sc e r)) = users (r_world r) \<and>
   outbox (r_world (fail_log sc e r)) = outbox (r_world r) \<and>
   r_user (fail_log sc e r) = r_user r \<and> r_results (fail_log sc e r) = r_results r \<and>
   r_video (fail_log sc e r) = r_video r \<and> r_file (fail_log sc e r) = r_file r \<and>
   log_count (fail_log sc e r) \<le> 1 \<and>
   length (logs (r_world (fail_log sc e r))) + log_count r =
     length (logs (r_world r)) + log_count (fail_log sc e r)"
  by (auto simp: fail_log_def Let_def log_count_def
        split: option.splits prod.splits sum.splits dest!: save_log_frame)

lemma fail_user_effect:
  "logs (r_world (fail_user sc r)) = logs (r_world r) \<and>
   outbox (r_world (fail_user sc r)) = outbox (r_world r) \<and>
   doc (r_user (fail_user sc r)) = (doc (r_user r))\<lparr>failedUploads := failedUploads (doc (r_user r)) + 1\<rparr> \<and>
   r_results (fail_user sc r) = r_results r \<and> r_video (fail_user sc r) = r_video r \<and>
   r_file (fail_user sc r) = r_file r \<and> r_log (fail_user sc r) = r_log r"
  by (auto simp: fail_user_def Let_def split: prod.splits sum.splits dest!: save_user_frame)

lemma fail_user_dates:
  assumes "lastUploadDate (doc (r_user r)) = lastUploadDate (saved (r_user r))"
  shows "map lastUploadDate (users (r_world (fail_user sc r))) = map lastUploadDate (users (r_world r))"
proof -
  define u1 where "u1 = (r_user r)\<lparr>doc := (doc (r_user r))\<lparr>failedUploads := failedUploads (doc (r_user r)) + 1\<rparr>\<rparr>"
  obtain sr w2 where sv: "save_user (userSaveFailed sc) u1 (r_world r) = (sr, w2)"
    by (cases "save_user (userSaveFailed sc) u1 (r_world r)")
  have "lastUploadDate (doc u1) = lastUploadDate (saved u1)"
    using assms by (simp add: u1_def)
  from save_user_dates [OF sv this] have "map lastUploadDate (users w2) = map lastUploadDate (users (r_world r))" .
  moreover have "r_world (fail_user sc r) = w2"
    using sv by (cases sr) (simp_all add: fail_user_def Let_def u1_def)
  ultimately show ?thesis by simp
qed

lemma fail_user_flags:
  assumes "isActive (doc (r_user r)) = isActive (saved (r_user r))"
  shows "map_option isActive (findById j (r_world (fail_user sc r))) =
         map_option isActive (findById j (r_world r))"
proof -
  define u1 where "u1 = (r_user r)\<lparr>doc := (doc (r_user r))\<lparr>failedUploads := failedUploads (doc (r_user r)) + 1\<rparr>\<rparr>"
  obtain sr w2 where sv: "save_user (userSaveFailed sc) u1 (r_world r) = (sr, w2)"
    by (cases "save_user (userSaveFailed sc) u1 (r_world r)")
  have "isActive (doc u1) = isActive (saved u1)"
    using assms by (simp add: u1_def)
  from save_user_findById [OF sv this, of j]
  have "map_option isActive (findById j w2) = map_option isActive (findById j (r_world r))" .
  moreover have "r_world (fail_user sc r) = w2"
    using sv by (cases sr) (simp_all add: fail_user_def Let_def u1_def)
  ultimately show ?thesis by simp
qed

lemma fail_cleanup_effect:
  "users (r_world (fail_cleanup r)) = users (r_world r) \<and>
   logs (r_world (fail_cleanup r)) = logs (r_world r) \<and>
   outbox (r_world (fail_cleanup r)) = outbox (r_world r) \<and>
   r_user (fail_cleanup r) = r_user r \<and> r_results (fail_cleanup r) = r_results r \<and>
   r_video (fail_cleanup r) = r_video r \<and> r_log (fail_cleanup r) = r_log r"
  by (auto simp: fail_cleanup_def split: option.splits)

lemma catch_block_effect:
  assumes "catch_block sc e r = r'"
  shows "outbox (r_world r') = outbox (r_world r) @
           [failure_notice e (r\<lparr>r_user := (r_user r)\<lparr>doc := (doc (r_user r))\<lparr>failedUploads := failedUploads (doc (r_user r)) + 1\<rparr>\<rparr>\<rparr>)]"
    and "\<exists>item. failed (r_results r') = failed (r_results r) @ [item] \<and> f_error item = message e"
    and "successful (r_results r') = successful (r_results r)"
    and "noVideos (r_results r') = noVideos (r_results r)"
    and "totalUsers (r_results r') = totalUsers (r_results r)"
    and "dbError (r_results r') = dbError (r_results r)"
    and "length (logs (r_world r')) + log_count r = length (logs (r_world r)) + log_count r' \<and> log_count r' \<le> 1"
    and "doc (r_user r') = (doc (r_user r))\<lparr>failedUploads := failedUploads (doc (r_user r)) + 1\<rparr>"
    and "lastUploadDate (doc (r_user r)) = lastUploadDate (saved (r_user r)) \<Longrightarrow>
           map lastUploadDate (users (r_world r')) = map lastUploadDate (users (r_world r))"
    and "isActive (doc (r_user r)) = isActive (saved (r_user r)) \<Longrightarrow>
           map_option isActive (findById j (r_world r')) = map_option isActive (findById j (r_world r))"
proof -
  define r1 where "r1 = fail_log sc e r"
  define r2 where "r2 = fail_user sc r1"
  define r3 where "r3 = fail_cleanup r2"
  note a = fail_log_effect [of sc e r, folded r1_def]
  note b = fail_user_effect [of sc r1, folded r2_def]
  note c = fail_cleanup_effect [of r2, folded r3_def]
  have r': "r' = fail_push e (fail_notify e r3)"
    using assms by (simp add: catch_block_def r1_def r2_def r3_def)
  have d3: "doc (r_user r3) = (doc (r_user r))\<lparr>failedUploads := failedUploads (doc (r_user r)) + 1\<rparr>"
    using a b c by simp
  have v3: "r_video r3 = r_video r" "r_results r3 = r_results r"
    using a b c by simp_all
  show "outbox (r_world r') = outbox (r_world r) @
           [failure_notice e (r\<lparr>r_user := (r_user r)\<lparr>doc := (doc (r_user r))\<lparr>failedUploads := failedUploads (doc (r_user r)) + 1\<rparr>\<rparr>\<rparr>)]"
    using r' a b c d3 v3 by (simp add: fail_push_def fail_notify_def failure_notice_def Let_def)
  show "\<exists>item. failed (r_results r') = failed (r_results r) @ [item] \<and> f_error item = message e"
    using r' v3 by (simp add: fail_push_def fail_notify_def Let_def)
  show "successful (r_results r') = successful (r_results r)"
    "noVideos (r_results r') = noVideos (r_results r)"
    "totalUsers (r_results r') = totalUsers (r_results r)"
    "dbError (r_results r') = dbError (r_results r)"
    using r' v3 by (simp_all add: fail_push_def fail_notify_def Let_def)
  show "doc (r_user r') = (doc (r_user r))\<lparr>failedUploads := failedUploads (doc (r_user r)) + 1\<rparr>"
    using r' d3 by (simp add: fail_push_def fail_notify_def Let_def)
  have lg: "r_log r' = r_log r1" "length (logs (r_world r')) = length (logs (r_world r1))"
    using r' b c by (simp_all add: fail_push_def fail_notify_def Let_def)
  then have "log_count r' = log_count r1"
    by (simp add: log_count_def)
  then show "length (logs (r_world r')) + log_count r = length (logs (r_world r)) + log_count r' \<and> log_count r' \<le> 1"
    using a lg by simp
  have w': "users (r_world r') = users (r_world r2)"
    using r' c by (simp add: fail_push_def fail_notify_def Let_def)
  show "map lastUploadDate (users (r_world r')) = map lastUploadDate (users (r_world r))"
    if "lastUploadDate (doc (r_user r)) = lastUploadDate (saved (r_user r))"
    using fail_user_dates [of r1 sc, folded r2_def] that a w' by simp
  show "map_option isActive (findById j (r_world r')) = map_option isActive (findById j (r_world r))"
    if "isActive (doc (r_user r)) = isActive (saved (r_user r))"
    using fail_user_flags [of r1 j sc, folded r2_def] that a w' by (simp add: findById_def)
qed




lemma processUserUpload_cases:
  fixes sc usr res w
  defines "r \<equiv> processUserUpload sc usr res w"
  shows "totalUsers (r_results r) = totalUsers res \<and> dbError (r_results r) = dbError res \<and>
         length (logs (r_world r)) \<le> length (logs w) + 1 \<and>
         (if getNextVideo (fetch sc) = Inr None
          then r_user r = usr \<and> users (r_world r) = users w \<and> logs (r_world r) = logs w \<and>
               outbox (r_world r) = outbox w \<and> r_results r = res\<lparr>noVideos := True\<rparr>
          else noVideos (r_results r) = noVideos res \<and>
               ((\<exists>item. successful (r_results r) = successful res @ [item]) \<and>
                  failed (r_results r) = failed res \<and> outbox (r_world r) = outbox w
                \<or> (\<exists>item. failed (r_results r) = failed res @ [item]) \<and>
                  successful (r_results r) = successful res \<and>
                  (\<exists>n. outbox (r_world r) = outbox w @ [n] \<and> \<not> is_report n)))"
proof -
  define r0 where "r0 = \<lparr>r_world = w, r_results = res, r_user = usr, r_video = None,
                          r_file = None, r_log = None\<rparr>"
  obtain out r1 where tb: "try_block sc r0 = (out, r1)"
    by (cases "try_block sc r0")
  have lg: "r_log r0 = None" by (simp add: r0_def)
  note t = try_block_effect [OF tb lg]
  have lc: "log_count r1 \<le> 1" by (simp add: log_count_def split: option.splits)
  show ?thesis
  proof (cases out)
    case (Inr fin)
    then have "r = r1"
      using tb by (simp add: r_def processUserUpload_def r0_def)
    then show ?thesis
      using t Inr lc by (auto simp: r0_def called_def split: if_splits)
  next
    case (Inl e)
    then have r: "catch_block sc e r1 = r"
      using tb by (simp add: r_def processUserUpload_def r0_def)
    note c = catch_block_effect [OF r]
    have nv: "getNextVideo (fetch sc) \<noteq> Inr None"
      using tb Inl by (auto simp: try_block_def Let_def)
    have "\<not> is_report (failure_notice e x)" for x
      by (simp add: failure_notice_def is_report_def)
    then show ?thesis
      using t Inl c(1-7) nv by (auto simp: r0_def)
  qed
qed















section \<open>Properties of a cycle\<close>

lemma process_users_effect:
  "length (successful (snd (process_users scs us (w, res)))) +
     length (failed (snd (process_users scs us (w, res)))) =
     length (successful res) + length (failed res) + length (filter (attempted scs) us) \<and>
   length (logs (fst (process_users scs us (w, res)))) \<le>
     length (logs w) + length (filter (attempted scs) us) \<and>
   filter is_report (outbox (fst (process_users scs us (w, res)))) = filter is_report (outbox w) \<and>
   totalUsers (snd (process_users scs us (w, res))) = totalUsers res \<and>
   dbError (snd (process_users scs us (w, res))) = dbError res"
proof (induction us arbitrary: w res)
  case Nil
  show ?case by simp
next
  case (Cons u us)
  define r where "r = processUserUpload (scs (uid u)) (load u) res w"
  note c = processUserUpload_cases [of "scs (uid u)" "load u" res w, folded r_def]
  note ih = Cons.IH [of "r_world r" "r_results r"]
  have step: "process_users scs (u # us) (w, res) = process_users scs us (r_world r, r_results r)"
    by (simp add: r_def Let_def)
  show ?case
  proof (cases "attempted scs u")
    case True
    then have nv: "getNextVideo (fetch (scs (uid u))) \<noteq> Inr None"
      by (simp add: attempted_def)
    have "length (successful (r_results r)) + length (failed (r_results r)) =
        length (successful res) + length (failed res) + 1"
      using c nv by auto
    moreover have "filter is_report (outbox (r_world r)) = filter is_report (outbox w)"
      using c nv by auto
    ultimately show ?thesis
      unfolding step using ih c True by simp
  next
    case False
    then have nv: "getNextVideo (fetch (scs (uid u))) = Inr None"
      by (simp add: attempted_def)
    show ?thesis
      unfolding step using ih c nv False by simp
  qed
qed

lemma process_users_idle:
  assumes "\<forall>u \<in> set us. \<not> attempted scs u"
  shows "users (fst (process_users scs us (w, res))) = users w \<and>
         logs (fst (process_users scs us (w, res))) = logs w \<and>
         outbox (fst (process_users scs us (w, res))) = outbox w \<and>
         snd (process_users scs us (w, res)) = (if us = [] then res else res\<lparr>noVideos := True\<rparr>)"
  using assms
proof (induction us arbitrary: w res)
  case Nil
  show ?case by simp
next
  case (Cons u us)
  define r where "r = processUserUpload (scs (uid u)) (load u) res w"
  note c = processUserUpload_cases [of "scs (uid u)" "load u" res w, folded r_def]
  have nv: "getNextVideo (fetch (scs (uid u))) = Inr None"
    using Cons.prems by (simp add: attempted_def)
  have rest: "\<forall>u \<in> set us. \<not> attempted scs u"
    using Cons.prems by simp
  note ih = Cons.IH [OF rest, of "r_world r" "r_results r"]
  have step: "process_users scs (u # us) (w, res) = process_users scs us (r_world r, r_results r)"
    by (simp add: r_def Let_def)
  show ?case
    unfolding step using ih c nv by simp
qed

lemma cycle_report:
  "filter is_report (outbox (fst (cycle_body env w))) =
     filter is_report (outbox w) @ [UploadReport (snd (cycle_body env w))]"
proof -
  obtain w2 res2 where pu: "process_users (scripts env) (select_users w)
      (w, empty_results\<lparr>totalUsers := length (select_users w)\<rparr>) = (w2, res2)"
    by (cases "process_users (scripts env) (select_users w)
      (w, empty_results\<lparr>totalUsers := length (select_users w)\<rparr>)")
  note e = process_users_effect [of "scripts env" "select_users w" w
      "empty_results\<lparr>totalUsers := length (select_users w)\<rparr>"]
  show ?thesis
    using pu e
    by (auto simp: cycle_body_def Let_def sendUploadReport_def is_report_def empty_results_def
          split: option.splits)
qed

lemma cycle_counts:
  "length (successful (snd (cycle_body env w))) + length (failed (snd (cycle_body env w))) =
     length (attempted_accounts env w) \<and>
   length (logs (fst (cycle_body env w))) \<le> length (logs w) + length (attempted_accounts env w)"
proof -
  obtain w2 res2 where pu: "process_users (scripts env) (select_users w)
      (w, empty_results\<lparr>totalUsers := length (select_users w)\<rparr>) = (w2, res2)"
    by (cases "process_users (scripts env) (select_users w)
      (w, empty_results\<lparr>totalUsers := length (select_users w)\<rparr>)")
  note e = process_users_effect [of "scripts env" "select_users w" w
      "empty_results\<lparr>totalUsers := length (select_users w)\<rparr>"]
  show ?thesis
    using pu e
    by (auto simp: cycle_body_def Let_def sendUploadReport_def attempted_accounts_def empty_results_def
          split: option.splits)
qed

text \<open>
  C4. One run of the pipeline stores at most one upload log and, unless the fetch answers
  that no video is available (then it adds no entry and no log), adds exactly one entry
  to exactly one of the two lists. So in every cycle that starts, the entries of both
  lists together are as many as the accounts attempted (the selected accounts whose
  fetch did not answer "none available"; none when the database is down or the query
  fails), and at most that many upload logs are stored.
\<close>

theorem cycle_accounting:
  "(let r = processUserUpload sc usr res w in
      length (logs (r_world r)) \<le> length (logs w) + 1 \<and>
      (if getNextVideo (fetch sc) = Inr None
       then successful (r_results r) = successful res \<and> failed (r_results r) = failed res \<and>
            logs (r_world r) = logs w
       else (\<exists>item. successful (r_results r) = successful res @ [item]) \<and>
              failed (r_results r) = failed res
          \<or> (\<exists>item. failed (r_results r) = failed res @ [item]) \<and>
              successful (r_results r) = successful res))
   \<and> (\<not> isRunning j \<longrightarrow>
        (\<exists>res'. snd (snd (processUploads env j w)) = Some res' \<and>
           length (successful res') + length (failed res') = length (attempted_accounts env w) \<and>
           length (logs (fst (snd (processUploads env j w)))) \<le>
             length (logs w) + length (attempted_accounts env w)))"
proof (rule conjI)
  show "let r = processUserUpload sc usr res w in
      length (logs (r_world r)) \<le> length (logs w) + 1 \<and>
      (if getNextVideo (fetch sc) = Inr None
       then successful (r_results r) = successful res \<and> failed (r_results r) = failed res \<and>
            logs (r_world r) = logs w
       else (\<exists>item. successful (r_results r) = successful res @ [item]) \<and>
              failed (r_results r) = failed res
          \<or> (\<exists>item. failed (r_results r) = failed res @ [item]) \<and>
              successful (r_results r) = successful res)"
    using processUserUpload_cases [of sc usr res w] by (auto simp: Let_def)
next
  show "\<not> isRunning j \<longrightarrow>
        (\<exists>res'. snd (snd (processUploads env j w)) = Some res' \<and>
           length (successful res') + length (failed res') = length (attempted_accounts env w) \<and>
           length (logs (fst (snd (processUploads env j w)))) \<le>
             length (logs w) + length (attempted_accounts env w))"
    using cycle_counts [of env w]
    by (auto simp: processUploads_def Let_def split: prod.splits)
qed

theorem cycle_accounting_witness:
  "\<exists>res'. snd (snd (processUploads quota_env idle_job sample_world)) = Some res' \<and>
      length (successful res') + length (failed res') = 1 \<and>
      length (logs (fst (snd (processUploads quota_env idle_job sample_world)))) \<le> 1"
proof -
  have a: "attempted_accounts quota_env sample_world = [sample_user]"
    by code_simp
  have b: "\<not> isRunning idle_job" "logs sample_world = []"
    by (simp_all add: idle_job_def sample_world_def)
  show ?thesis
    using cycle_accounting [of quota_script "load sample_user" empty_results sample_world idle_job quota_env]
      a b by simp
qed

text \<open>
  C6. When the fetch answers that no video is available, the run sets \<open>noVideos\<close> and
  returns: no upload log exists, and the account document, the stored accounts, the
  stored logs and the notices are as before. Every cycle that starts sends exactly one
  report, carrying its results. In a cycle whose selected accounts all find no video,
  the report has \<open>noVideos\<close> set and no entries, nothing is stored, and the report is the
  only notice.
\<close>

theorem no_video_leaves_account_alone:
  "(getNextVideo (fetch sc) = Inr None \<longrightarrow>
      (let r = processUserUpload sc usr res w in
         r_results r = res\<lparr>noVideos := True\<rparr> \<and> r_user r = usr \<and> r_log r = None \<and>
         users (r_world r) = users w \<and> logs (r_world r) = logs w \<and> outbox (r_world r) = outbox w))
   \<and> (\<not> isRunning j \<longrightarrow>
        (\<exists>res'. snd (snd (processUploads env j w)) = Some res' \<and>
           filter is_report (outbox (fst (snd (processUploads env j w)))) =
             filter is_report (outbox w) @ [UploadReport res']))
   \<and> (\<not> isRunning j \<and> dbConnected env \<and> findError env = None \<and> select_users w \<noteq> [] \<and>
        (\<forall>u \<in> set (select_users w). getNextVideo (fetch (scripts env (uid u))) = Inr None) \<longrightarrow>
        (\<exists>res'. snd (snd (processUploads env j w)) = Some res' \<and>
           noVideos res' \<and> successful res' = [] \<and> failed res' = [] \<and>
           users (fst (snd (processUploads env j w))) = users w \<and>
           logs (fst (snd (processUploads env j w))) = logs w \<and>
           outbox (fst (snd (processUploads env j w))) = outbox w @ [UploadReport res']))"
proof (intro conjI impI)
  assume "getNextVideo (fetch sc) = Inr None"
  then show "let r = processUserUpload sc usr res w in
         r_results r = res\<lparr>noVideos := True\<rparr> \<and> r_user r = usr \<and> r_log r = None \<and>
         users (r_world r) = users w \<and> logs (r_world r) = logs w \<and> outbox (r_world r) = outbox w"
    by (simp add: processUserUpload_def try_block_def Let_def)
next
  assume "\<not> isRunning j"
  then show "\<exists>res'. snd (snd (processUploads env j w)) = Some res' \<and>
           filter is_report (outbox (fst (snd (processUploads env j w)))) =
             filter is_report (outbox w) @ [UploadReport res']"
    using cycle_report [of env w]
    by (auto simp: processUploads_def Let_def split: prod.splits)
next
  assume a: "\<not> isRunning j \<and> dbConnected env \<and> findError env = None \<and> select_users w \<noteq> [] \<and>
        (\<forall>u \<in> set (select_users w). getNextVideo (fetch (scripts env (uid u))) = Inr None)"
  then have idle: "\<forall>u \<in> set (select_users w). \<not> attempted (scripts env) u"
    by (simp add: attempted_def)
  note p = process_users_idle [OF idle, of w "empty_results\<lparr>totalUsers := length (select_users w)\<rparr>"]
  obtain w2 res2 where pu: "process_users (scripts env) (select_users w)
      (w, empty_results\<lparr>totalUsers := length (select_users w)\<rparr>) = (w2, res2)"
    by (cases "process_users (scripts env) (select_users w)
      (w, empty_results\<lparr>totalUsers := length (select_users w)\<rparr>)")
  have "cycle_body env w = (sendUploadReport res2 w2, res2)"
    using a pu by (simp add: cycle_body_def Let_def empty_results_def)
  then show "\<exists>res'. snd (snd (processUploads env j w)) = Some res' \<and>
           noVideos res' \<and> successful res' = [] \<and> failed res' = [] \<and>
           users (fst (snd (processUploads env j w))) = users w \<and>
           logs (fst (snd (processUploads env j w))) = logs w \<and>
           outbox (fst (snd (processUploads env j w))) = outbox w @ [UploadReport res']"
    using a p pu
    by (simp add: processUploads_def Let_def sendUploadReport_def empty_results_def)
qed

theorem no_video_leaves_account_alone_witness:
  "\<exists>res'. snd (snd (processUploads idle_env idle_job sample_world)) = Some res' \<and>
      noVideos res' \<and> successful res' = [] \<and> failed res' = [] \<and>
      users (fst (snd (processUploads idle_env idle_job sample_world))) = [sample_user] \<and>
      logs (fst (snd (processUploads idle_env idle_job sample_world))) = [] \<and>
      outbox (fst (snd (processUploads idle_env idle_job sample_world))) = [UploadReport res']"
proof -
  have s: "select_users sample_world = [sample_user]"
    by code_simp
  have f: "getNextVideo (fetch none_script) = Inr None"
    by (simp add: none_script_def getNextVideo_def)
  have h: "\<not> isRunning idle_job \<and> dbConnected idle_env \<and> findError idle_env = None \<and>
      select_users sample_world \<noteq> [] \<and>
      (\<forall>u \<in> set (select_users sample_world). getNextVideo (fetch (scripts idle_env (uid u))) = Inr None)"
    using s f by (simp add: idle_job_def idle_env_def)
  show ?thesis
    using no_video_leaves_account_alone [of none_script "load sample_user" empty_results sample_world
        idle_job idle_env] h
    by (simp add: sample_world_def)
qed

end
